theory Spec2Isabelle
  imports Main "HOL-Library.Product_Lexorder" "HOL-Library.Multiset"
begin

section \<open>Strings as the program uses them\<close>

text \<open>
  The program is Python; its \<open>str\<close> values are modelled as \<^typ>\<open>string\<close>, one
  \<^typ>\<open>char\<close> for each character, read as the code points 0 to 255. \<open>None\<close> in a
  text field of an element is \<^term>\<open>None\<close> of \<^typ>\<open>string option\<close>.
\<close>

datatype py_error = IndexError | KeyError | TypeError | AttributeError

text \<open>\<open>str.strip()\<close> removes the characters for which \<open>str.isspace\<close> holds; among
  the code points below 256 these are 9 to 13, 28 to 31, 32, 133 (U+0085) and 160
  (U+00A0).\<close>

definition is_space :: "char \<Rightarrow> bool" where
  "is_space c = (of_char c \<in> set [9, 10, 11, 12, 13, 28, 29, 30, 31, 32, 133, 160 :: nat])"

definition lstrip_by :: "(char \<Rightarrow> bool) \<Rightarrow> string \<Rightarrow> string" where
  "lstrip_by P s = dropWhile P s"

definition rstrip_by :: "(char \<Rightarrow> bool) \<Rightarrow> string \<Rightarrow> string" where
  "rstrip_by P s = rev (dropWhile P (rev s))"

definition strip_by :: "(char \<Rightarrow> bool) \<Rightarrow> string \<Rightarrow> string" where
  "strip_by P s = rstrip_by P (lstrip_by P s)"

definition strip :: "string \<Rightarrow> string" where
  "strip s = strip_by is_space s"

text \<open>\<open>sep.join(parts)\<close>.\<close>

fun join :: "string \<Rightarrow> string list \<Rightarrow> string" where
  "join sep [] = []"
| "join sep [p] = p"
| "join sep (p # q # ps) = p @ sep @ join sep (q # ps)"

text \<open>\<open>re.split('[...]', s)\<close> for a class of single characters: the text is cut at
  every character of the class, empty pieces included.\<close>

fun split_chars :: "(char \<Rightarrow> bool) \<Rightarrow> string \<Rightarrow> string \<Rightarrow> string list" where
  "split_chars P acc [] = [rev acc]"
| "split_chars P acc (c # cs) =
     (if P c then rev acc # split_chars P [] cs else split_chars P (c # acc) cs)"

section \<open>Witness citations: \<open>parse_wits\<close> and \<open>extract_witnesses_right\<close>\<close>

text \<open>
  A segment of an apparatus entry is a pair of a style (\<open>None\<close> or \<open>'italic'\<close>, the
  only two values the extraction stage assigns) and its text.
  The functions read \<open>edition_ids[doc_num]\<close> and
  \<open>default_edition_ids[doc_num]['DJAK03']\<close>; the model takes the document's table
  \<open>ids\<close> and its default witness \<open>dflt\<close> in place of \<open>doc_num\<close>.
\<close>

datatype style = Plain | Italic

type_synonym piece = "style \<times> string"

definition parse_wit :: "(string \<rightharpoonup> string) \<Rightarrow> string \<Rightarrow> string \<Rightarrow> string list" where
  "parse_wit ids position w0 =
     (let w = strip_by (\<lambda>c. c = CHR '';'') (strip w0)
      in if w = [] then []
         else (case ids w of
                 Some ed_wit \<Rightarrow> [''#'' @ ed_wit]
               | None \<Rightarrow> [''[tbd_'' @ position @ '': '' @ w @ '']'']))"

definition parse_wits :: "(string \<rightharpoonup> string) \<Rightarrow> string \<Rightarrow> string \<Rightarrow> bool \<Rightarrow> string" where
  "parse_wits ids wit_str position add_default =
     join '' ''
       ((if add_default then [''#DJAK03''] else []) @
        concat (map (parse_wit ids position)
                  (split_chars (\<lambda>c. c = CHR '','' \<or> c = CHR ''a'') [] wit_str)))"

text \<open>\<open>next_style_dict\<close> and the two counters of \<open>counts\<close> (\<open>None\<close> first).\<close>

fun next_style :: "style \<Rightarrow> style" where
  "next_style Plain = Italic"
| "next_style Italic = Plain"

fun bump :: "nat \<times> nat \<Rightarrow> style \<Rightarrow> nat \<times> nat" where
  "bump (n, i) Plain = (Suc n, i)"
| "bump (n, i) Italic = (n, Suc i)"

text \<open>The \<open>for elem in after[1:]\<close> loop: \<open>None\<close> when it returns the unparsed marker
  from inside, the counters otherwise.\<close>

fun alternation_loop :: "style \<Rightarrow> nat \<times> nat \<Rightarrow> piece list \<Rightarrow> (nat \<times> nat) option" where
  "alternation_loop prev_style counts [] = Some counts"
| "alternation_loop prev_style counts (elem # rest) =
     (let current_style = fst elem; counts' = bump counts current_style
      in if current_style \<noteq> next_style prev_style then None
         else alternation_loop current_style counts' rest)"

text \<open>\<open>xs[::2]\<close>; then \<open>after[:-1:2]\<close> is \<open>every_second (butlast after)\<close> and
  \<open>after[1::2]\<close> is \<open>every_second (tl after)\<close>.\<close>

fun every_second :: "'a list \<Rightarrow> 'a list" where
  "every_second [] = []"
| "every_second [x] = [x]"
| "every_second (x # y # xs) = x # every_second xs"

definition unparsed :: "piece list \<Rightarrow> (string \<times> string) list" where
  "unparsed after = [(''unparsed'', join '' | '' (map (\<lambda>piece. strip (snd piece)) after))]"

definition extract_witnesses_right ::
  "(string \<rightharpoonup> string) \<Rightarrow> string \<Rightarrow> piece list \<Rightarrow> py_error + (string \<times> string) list" where
  "extract_witnesses_right ids dflt after =
     (if length after = 1 \<and> fst (hd after) = Plain then Inr [(''#'' @ dflt, snd (hd after))]
      else if length after = 1 \<and> fst (hd after) = Italic then Inr [(''tbd'', snd (hd after))]
      else (case after of
              [] \<Rightarrow> Inl IndexError
            | first # rest \<Rightarrow>
               (case alternation_loop (fst first) (bump (0, 0) (fst first)) rest of
                  None \<Rightarrow> Inr (unparsed after)
                | Some (n_plain, n_italic) \<Rightarrow>
                    if n_plain \<noteq> n_italic then Inr (unparsed after)
                    else if fst first = Plain then
                      Inr (map (\<lambda>(text, wits). (parse_wits ids (snd wits) ''a'' False, snd text))
                             (zip (every_second (butlast after)) (every_second (tl after))))
                    else
                      Inr (map (\<lambda>(text, wits). (parse_wits ids (snd wits) ''b'' False, snd text))
                             (zip (every_second (tl after)) (every_second (butlast after)))))))"

text \<open>The tables of document \<open>'01'\<close>: \<open>edition_ids['01']\<close> and
  \<open>default_edition_ids['01']['DJAK03']\<close>.\<close>

definition edition_ids_01 :: "string \<rightharpoonup> string" where
  "edition_ids_01 = map_of [(''M'', ''M''), (''Sr'', ''Sr''), (''St'', ''St''), (''W'', ''W''),
     (''DJAK03'', ''DJAK03'')]"

definition default_edition_id_01 :: string where
  "default_edition_id_01 = ''St''"

subsection \<open>The two grammars, as the specification words them\<close>

text \<open>A strict alternation: every segment differs in style from the one before it.
  The counts are those of the plain (text) and the italic (sigla) segments. The two
  grammars pair the segments two by two, text first or sigla first.\<close>

definition strict_alternation :: "piece list \<Rightarrow> bool" where
  "strict_alternation after =
     (\<forall>i \<in> {0..<length after - 1}. fst (after ! Suc i) \<noteq> fst (after ! i))"

definition count_style :: "style \<Rightarrow> piece list \<Rightarrow> nat" where
  "count_style s after = length (filter (\<lambda>piece. fst piece = s) after)"

definition text_then_sigla :: "(string \<rightharpoonup> string) \<Rightarrow> piece list \<Rightarrow> (string \<times> string) list" where
  "text_then_sigla ids after =
     map (\<lambda>i. (parse_wits ids (snd (after ! (2 * i + 1))) ''a'' False, snd (after ! (2 * i))))
       [0..<length after div 2]"

definition sigla_then_text :: "(string \<rightharpoonup> string) \<Rightarrow> piece list \<Rightarrow> (string \<times> string) list" where
  "sigla_then_text ids after =
     map (\<lambda>i. (parse_wits ids (snd (after ! (2 * i))) ''b'' False, snd (after ! (2 * i + 1))))
       [0..<length after div 2]"

text \<open>The alternation test of the loop, without the counters.\<close>

fun alternates_from :: "style \<Rightarrow> piece list \<Rightarrow> bool" where
  "alternates_from prev [] = True"
| "alternates_from prev (e # es) = (fst e = next_style prev \<and> alternates_from (fst e) es)"

section \<open>Ordering of the comments of a page: \<open>get_sort_key\<close>\<close>

text \<open>
  A queued comment is the tuple \<open>(number, label, note, comment_i)\<close>. \<open>number\<close> is
  the text of the bold run before the label (\<open>None\<close> when that run has no text,
  \<open>'???'\<close> when it is missing); \<open>note\<close> is the text of the note (\<open>None\<close> when
  the run of the label has no tail); \<open>comment_i\<close> is the running index of the comment
  in the input.
\<close>

type_synonym comment = "string option \<times> string \<times> string option \<times> int"

definition is_digit :: "char \<Rightarrow> bool" where
  "is_digit c = (c \<in> set ''0123456789'')"

text \<open>\<open>\d\<close> matches the decimal digits; below code point 256 these are \<open>0\<close> to \<open>9\<close>.
  \<open>re.search(r'\d+', s)\<close> is the leftmost, longest run of digits, if there is one.\<close>

definition search_digits :: "string \<Rightarrow> string option" where
  "search_digits s =
     (let ds = takeWhile is_digit (dropWhile (\<lambda>c. \<not> is_digit c) s)
      in if ds = [] then None else Some ds)"

text \<open>\<open>int(ds)\<close> on a string of decimal digits.\<close>

definition int_of_digits :: "string \<Rightarrow> int" where
  "int_of_digits ds = foldl (\<lambda>a c. 10 * a + (int (of_char c) - 48)) 0 ds"

text \<open>The \<open>try\<close> block of \<open>get_sort_key\<close>: \<open>re.search\<close> raises \<open>TypeError\<close> on
  \<open>None\<close>, and \<open>.group()\<close> raises \<open>AttributeError\<close> when nothing was found; both are
  caught and give 99999.\<close>

definition line_num :: "comment \<Rightarrow> int" where
  "line_num comment_tuple =
     (case fst comment_tuple of
        None \<Rightarrow> 99999
      | Some number \<Rightarrow>
         (case search_digits number of None \<Rightarrow> 99999 | Some ds \<Rightarrow> int_of_digits ds))"

definition label_of :: "comment \<Rightarrow> string" where
  "label_of comment_tuple = fst (snd comment_tuple)"

definition get_sort_key :: "comment \<Rightarrow> int \<times> int \<times> int" where
  "get_sort_key comment_tuple =
     (let length_score = - int (length (label_of comment_tuple));
          original_index = snd (snd (snd comment_tuple))
      in (line_num comment_tuple, length_score, original_index))"

text \<open>\<open>sorted(comments[pe_number], key=get_sort_key)\<close>: a stable sort; the keys are
  tuples, compared lexicographically.\<close>

definition sorted_comments :: "comment list \<Rightarrow> comment list" where
  "sorted_comments cs = sort_key get_sort_key cs"

section \<open>The document tree and the splicer\<close>

text \<open>
  An lxml element: its tag, attributes, text (the text before its first child), its
  children and its tail (the text after it, before its next sibling); the field
  \<open>text\<close> is named \<open>etext\<close> here. \<open>ident\<close> stands
  for the identity of the Python object: the program compares elements and keys a
  dictionary by identity. New elements take their idents from a counter.
\<close>

datatype element =
  Element (ident: nat) (tag: string) (attrib: "(string \<times> string) list")
    (etext: "string option") (children: "element list") (tail: "string option")

fun set_text :: "element \<Rightarrow> string option \<Rightarrow> element" where
  "set_text (Element i t a x c l) x' = Element i t a x' c l"

fun set_tail :: "element \<Rightarrow> string option \<Rightarrow> element" where
  "set_tail (Element i t a x c l) l' = Element i t a x c l'"

fun set_children :: "element \<Rightarrow> element list \<Rightarrow> element" where
  "set_children (Element i t a x c l) c' = Element i t a x c' l"

definition safe :: "string option \<Rightarrow> string" where
  "safe t = (case t of None \<Rightarrow> [] | Some s \<Rightarrow> s)"

definition ENCLOSING_TAGS :: "string list" where
  "ENCLOSING_TAGS = [''hi'', ''foreign'', ''add'', ''foreign_hi'', ''add_foreign_hi'']"

text \<open>A match object, as its \<open>start()\<close> and \<open>end()\<close>. The three slices
  \<open>t[:start]\<close>, \<open>t[start:end]\<close> and \<open>t[end:]\<close>; a Python slice stops at the end of
  the string, as \<open>take\<close> and \<open>drop\<close> do.\<close>

type_synonym match = "nat \<times> nat"

definition text_before :: "string \<Rightarrow> match \<Rightarrow> string" where
  "text_before t m = take (fst m) t"

definition text_label :: "string \<Rightarrow> match \<Rightarrow> string" where
  "text_label t m = drop (fst m) (take (snd m) t)"

definition text_after :: "string \<Rightarrow> match \<Rightarrow> string" where
  "text_after t m = drop (snd m) t"

subsection \<open>\<open>add_comment\<close>\<close>

text \<open>
  \<open>note_type\<close> is \<open>'gloss'\<close> for a comment and \<open>'commentary'\<close> for a footnote. The two
  attribute values \<open>anchor_id_template.format(comment_i)\<close> and
  \<open>app_id_template.format(comment_i)\<close> are the arguments \<open>anchor_id\<close> and \<open>app_from\<close>.
  A call makes at most six elements; their idents are \<open>fresh\<close> to \<open>fresh + 5\<close>, the
  anchor's is \<open>fresh\<close>.
\<close>

datatype note_type = Gloss | Commentary

definition anchor_elem :: "nat \<Rightarrow> string \<Rightarrow> string option \<Rightarrow> element" where
  "anchor_elem fresh anchor_id new_tail =
     Element fresh ''anchor'' [(''{http://www.w3.org/XML/1998/namespace}id'', anchor_id)]
       None [] new_tail"

text \<open>The \<open>app\<close> of a gloss, with its \<open>note\<close> and \<open>label\<close>:
  \<open>label.tail = ' ' + (note_text or '').strip()\<close>.\<close>

definition app_elem :: "nat \<Rightarrow> string \<Rightarrow> string \<Rightarrow> string option \<Rightarrow> string option \<Rightarrow> element" where
  "app_elem fresh app_from label_text note_text new_tail =
     Element (fresh + 1) ''app'' [(''from'', app_from)] None
       [Element (fresh + 2) ''note'' [(''place'', ''bottom''), (''type'', ''gloss'')] None
          [Element (fresh + 3) ''label'' [] (Some label_text) []
             (Some ('' '' @ strip (safe note_text)))]
          None]
       new_tail"

text \<open>The \<open>note\<close> of a footnote: \<open>note.text = note_text\<close>, \<open>note.tail = text_after\<close>.\<close>

definition note_elem :: "nat \<Rightarrow> string option \<Rightarrow> string option \<Rightarrow> element" where
  "note_elem fresh note_text new_tail =
     Element (fresh + 1) ''note'' [(''place'', ''bottom''), (''type'', ''commentary'')]
       note_text [] new_tail"

text \<open>
  The branch \<open>current is not None\<close>: the match is in the tail of the child at index \<open>k\<close>
  of \<open>current_parent\<close>, \<open>k\<close> standing for \<open>current_parent.index(current)\<close>; the program
  always passes a child, and a \<open>k\<close> that is no index of a child is an error here.
  Slicing \<open>current.tail\<close> raises \<open>TypeError\<close> when it is \<open>None\<close>.
  The result is the new \<open>current_parent\<close> and the ident of the anchor.
\<close>

definition add_comment_tail ::
  "nat \<Rightarrow> note_type \<Rightarrow> string \<Rightarrow> string \<Rightarrow> element \<Rightarrow> nat \<Rightarrow> match \<Rightarrow> string \<Rightarrow> string option
     \<Rightarrow> py_error + element \<times> nat" where
  "add_comment_tail fresh nt anchor_id app_from current_parent k label_match label_text note_text =
     (if length (children current_parent) \<le> k then Inl IndexError
      else
        let cs = children current_parent; current = cs ! k in
        case tail current of
          None \<Rightarrow> Inl TypeError
        | Some t \<Rightarrow>
            let anchor = anchor_elem fresh anchor_id (Some (text_label t label_match));
                inserted =
                  (case nt of
                     Gloss \<Rightarrow> app_elem fresh app_from label_text note_text
                                (Some (text_after t label_match))
                   | Commentary \<Rightarrow> note_elem fresh note_text (Some (text_after t label_match)))
            in Inr (set_children current_parent
                      (take k cs @
                       [set_tail current (Some (text_before t label_match)), anchor, inserted] @
                       drop (Suc k) cs),
                    fresh))"

text \<open>
  The branch \<open>current is None\<close>: the match is in the text of \<open>current_parent\<close>, the
  element at index \<open>k\<close> of the list \<open>siblings\<close> of its parent's children. When its tag
  is not an enclosing one the new elements become its first children; otherwise
  copies of it holding the text before and after are put beside it
  (\<open>addprevious\<close>, \<open>addnext\<close>: an element moves with its tail, and \<open>addnext\<close> inserts
  after the tail of its target). The result is the new list of siblings.
\<close>

definition add_comment_text ::
  "nat \<Rightarrow> note_type \<Rightarrow> string \<Rightarrow> string \<Rightarrow> element list \<Rightarrow> nat \<Rightarrow> match \<Rightarrow> string \<Rightarrow> string option
     \<Rightarrow> py_error + element list \<times> nat" where
  "add_comment_text fresh nt anchor_id app_from siblings k label_match label_text note_text =
     (if length siblings \<le> k then Inl IndexError
      else
        let current_parent = siblings ! k in
        case etext current_parent of
          None \<Rightarrow> Inl TypeError
        | Some t \<Rightarrow>
            let t_before = text_before t label_match;
                t_label = text_label t label_match;
                t_after = text_after t label_match
            in
            if tag current_parent \<notin> set ENCLOSING_TAGS then
              let anchor = anchor_elem fresh anchor_id (Some t_label);
                  inserted =
                    (case nt of
                       Gloss \<Rightarrow> app_elem fresh app_from label_text note_text (Some t_after)
                     | Commentary \<Rightarrow> note_elem fresh note_text (Some t_after))
              in Inr (siblings [k := set_children (set_text current_parent (Some t_before))
                                       (anchor # inserted # children current_parent)],
                      fresh)
            else
              let hi_before =
                    (if t_before \<noteq> [] then
                       [Element (fresh + 4) (tag current_parent) (attrib current_parent)
                          (Some t_before) [] None]
                     else []);
                  hi_after =
                    (if t_after \<noteq> [] then
                       [Element (fresh + 5) (tag current_parent) (attrib current_parent)
                          (Some t_after) [] None]
                     else []);
                  anchor = anchor_elem fresh anchor_id None;
                  middle =
                    (case nt of
                       Gloss \<Rightarrow>
                         [anchor, set_text current_parent (Some t_label),
                          app_elem fresh app_from label_text note_text None]
                     | Commentary \<Rightarrow>
                         [anchor, note_elem fresh note_text (Some t_after),
                          set_text current_parent (Some t_label)])
              in Inr (take k siblings @ hi_before @ middle @ hi_after @ drop (Suc k) siblings,
                      fresh))"

subsection \<open>\<open>add_critical\<close>\<close>

text \<open>
  The lemma of an apparatus entry is the triple \<open>(wit, text, 'lem')\<close> that
  \<open>extract_witnesses_left\<close> makes, the readings are pairs \<open>(wit, text)\<close>.
  \<open>add_critical\<close> builds an \<open>app\<close> whose first child is the lemma element; the
  attributes of that element and the elements after it (the readings and their
  notes, lines 1712 to 1728 and 1761 to 1823 of the program) are computed from the
  entry alone and do not touch the tree. They are the argument \<open>apparatus\<close> here: a
  function from the entry and the first free ident to the attributes and the further
  children.
\<close>

type_synonym lem = "string \<times> string \<times> string"
type_synonym rdg = "(string \<times> string) list"
type_synonym apparatus = "lem \<Rightarrow> rdg \<Rightarrow> nat \<Rightarrow> (string \<times> string) list \<times> element list"

text \<open>The end of \<open>add_critical\<close>: a final punctuation mark of the matched text that the
  lemma itself does not end with is moved to the text after.\<close>

definition endswith :: "string \<Rightarrow> char \<Rightarrow> bool" where
  "endswith s c = (s \<noteq> [] \<and> last s = c)"

definition move_punctuation :: "string \<Rightarrow> string \<Rightarrow> string \<Rightarrow> string \<times> string" where
  "move_punctuation raw_lemma_label matched_text after =
     (if matched_text \<noteq> [] \<and> last matched_text \<in> set ''.,:;?!'' \<and>
         \<not> endswith raw_lemma_label (last matched_text)
      then (butlast matched_text, last matched_text # after)
      else (matched_text, after))"

definition critical_app ::
  "apparatus \<Rightarrow> nat \<Rightarrow> lem \<Rightarrow> rdg \<Rightarrow> string \<Rightarrow> string \<Rightarrow> element" where
  "critical_app apparatus fresh lem_text rdg_text matched after =
     (let (matched_text, after') = move_punctuation (strip (fst (snd lem_text))) matched after;
          (lem_attrib, rest) = apparatus lem_text rdg_text (fresh + 2)
      in Element fresh ''app'' [] None
           (Element (fresh + 1) (snd (snd lem_text)) lem_attrib (Some matched_text) [] (Some '' '')
            # rest)
           (Some after'))"

text \<open>The branch \<open>current is not None\<close>: \<open>current\<close> is the child at index \<open>k\<close> of its
  parent. The result is the new parent; the new \<open>app\<close> is its child at \<open>k + 1\<close>.\<close>

definition add_critical_tail ::
  "apparatus \<Rightarrow> nat \<Rightarrow> element \<Rightarrow> nat \<Rightarrow> match \<Rightarrow> lem \<Rightarrow> rdg \<Rightarrow> py_error + element" where
  "add_critical_tail apparatus fresh parent k lem_match lem_text rdg_text =
     (if length (children parent) \<le> k then Inl IndexError
      else
        let cs = children parent; current = cs ! k in
        case tail current of
          None \<Rightarrow> Inl TypeError
        | Some t \<Rightarrow>
            Inr (set_children parent
                   (take k cs @
                    [set_tail current (Some (text_before t lem_match)),
                     critical_app apparatus fresh lem_text rdg_text
                       (text_label t lem_match) (text_after t lem_match)] @
                    drop (Suc k) cs)))"

text \<open>The branch \<open>current is None\<close>: the match is in \<open>current_parent.text\<close>; the new
  \<open>app\<close> becomes the first child.\<close>

definition add_critical_text ::
  "apparatus \<Rightarrow> nat \<Rightarrow> element \<Rightarrow> match \<Rightarrow> lem \<Rightarrow> rdg \<Rightarrow> py_error + element" where
  "add_critical_text apparatus fresh current_parent lem_match lem_text rdg_text =
     (case etext current_parent of
        None \<Rightarrow> Inl TypeError
      | Some t \<Rightarrow>
          Inr (set_children (set_text current_parent (Some (text_before t lem_match)))
                 (critical_app apparatus fresh lem_text rdg_text
                    (text_label t lem_match) (text_after t lem_match)
                  # children current_parent)))"

subsection \<open>A paragraph to try the splicer on\<close>



section \<open>The placement driver for comments: \<open>add_comments\<close>\<close>

text \<open>
  The driver works on the children of one \<open>div\<close>, the list \<open>pars\<close>: the page break of
  a page is a \<open>pb\<close> child of a \<open>p\<close> child of the first \<open>div\<close> of the body or of the back,
  and \<open>getnext\<close> and \<open>getparent\<close> never leave these two levels. \<open>current_p\<close> is an
  index into \<open>pars\<close>, \<open>current\<close> an index into the children of \<open>current_p\<close>, or \<open>None\<close>.

  The compiled pattern of a label comes in only through
  \<open>label_regex.search(strip_accents(safe(t)))\<close>; this function of the text \<open>safe(t)\<close>
  is the argument \<open>label_regex\<close> of the scan, and \<open>search label\<close> in the driver.
\<close>

type_synonym searcher = "string \<Rightarrow> match option"

type_synonym cursor = "nat \<times> nat option"

text \<open>Where a label was found: in the text of paragraph \<open>i\<close> (checks 1 and 4), in the
  text of its enclosing child \<open>k\<close> (check 2), or in the tail of its child \<open>k\<close>
  (check 3).\<close>

datatype place = In_text nat match | In_head nat nat match | In_tail nat nat match

datatype advance = Found place | Stop | Next_par

text \<open>\<open>created_anchors\<close> is the dictionary from the anchors made on this page to their
  labels, keyed by the element.\<close>

definition skip_duplicate :: "(nat \<times> string) list \<Rightarrow> element \<Rightarrow> string \<Rightarrow> match \<Rightarrow> bool" where
  "skip_duplicate created_anchors current label label_match =
     (map_of created_anchors (ident current) = Some label \<and> fst label_match = 0)"

text \<open>
  The iterations of the \<open>while\<close> loop with \<open>current\<close> an element: \<open>current\<close> is the head
  of the list, the child \<open>k\<close> of \<open>current_p\<close>, and the rest are its next siblings. The
  result says how the loop goes on: a place was found, the next sibling is a \<open>pb\<close>
  (\<open>current_p = None\<close>), or there is no next sibling (\<open>current_p =
  current_p.getnext()\<close>). With it comes the list of the cursors of the iterations made.
\<close>

fun scan_current ::
  "searcher \<Rightarrow> (nat \<times> string) list \<Rightarrow> string \<Rightarrow> nat \<Rightarrow> element \<Rightarrow> nat \<Rightarrow> element list
     \<Rightarrow> advance \<times> cursor list" where
  "scan_current label_regex created_anchors label i current_p k [] = (Next_par, [])"
| "scan_current label_regex created_anchors label i current_p k (current # siblings) =
     (let check1 =
            (if k = 0 \<and> safe (etext current_p) \<noteq> [] then label_regex (safe (etext current_p))
             else None);
          check2 =
            (if tag current \<in> set ENCLOSING_TAGS then
               (case label_regex (safe (etext current)) of
                  None \<Rightarrow> None
                | Some label_match \<Rightarrow>
                    if skip_duplicate created_anchors current label label_match then None
                    else Some label_match)
             else None);
          check3 =
            (case label_regex (safe (tail current)) of
               None \<Rightarrow> None
             | Some label_match \<Rightarrow>
                 if skip_duplicate created_anchors current label label_match then None
                 else Some label_match)
      in case check1 of
           Some label_match \<Rightarrow> (Found (In_text i label_match), [(i, Some k)])
         | None \<Rightarrow>
            (case check2 of
               Some label_match \<Rightarrow> (Found (In_head i k label_match), [(i, Some k)])
             | None \<Rightarrow>
                (case check3 of
                   Some label_match \<Rightarrow> (Found (In_tail i k label_match), [(i, Some k)])
                 | None \<Rightarrow>
                    (case siblings of
                       [] \<Rightarrow> (Next_par, [(i, Some k)])
                     | next_sibling # _ \<Rightarrow>
                         if tag next_sibling = ''pb'' then (Stop, [(i, Some k)])
                         else (case scan_current label_regex created_anchors label i current_p
                                      (Suc k) siblings of
                                 (r, visited) \<Rightarrow> (r, (i, Some k) # visited))))))"

text \<open>The iterations with \<open>current = None\<close> (check 4): \<open>current_p\<close> is the head of the
  list, the paragraph \<open>i\<close>.\<close>

fun scan_pars ::
  "searcher \<Rightarrow> (nat \<times> string) list \<Rightarrow> string \<Rightarrow> nat \<Rightarrow> element list
     \<Rightarrow> place option \<times> cursor list" where
  "scan_pars label_regex created_anchors label i [] = (None, [])"
| "scan_pars label_regex created_anchors label i (current_p # following) =
     (case label_regex (safe (etext current_p)) of
        Some label_match \<Rightarrow> (Some (In_text i label_match), [(i, None)])
      | None \<Rightarrow>
         (case children current_p of
            [] \<Rightarrow>
              (case scan_pars label_regex created_anchors label (Suc i) following of
                 (r, visited) \<Rightarrow> (r, (i, None) # visited))
          | current # _ \<Rightarrow>
              if tag current = ''pb'' then (None, [(i, None)])
              else
                (case scan_current label_regex created_anchors label i current_p 0
                        (children current_p) of
                   (Found found, visited) \<Rightarrow> (Some found, (i, None) # visited)
                 | (Stop, visited) \<Rightarrow> (None, (i, None) # visited)
                 | (Next_par, visited) \<Rightarrow>
                     (case scan_pars label_regex created_anchors label (Suc i) following of
                        (r, visited') \<Rightarrow> (r, (i, None) # visited @ visited')))))"

text \<open>The whole \<open>while\<close> loop for one comment, from the page break: the child \<open>k\<close> of
  the paragraph \<open>i\<close>.\<close>

definition scan_comment ::
  "searcher \<Rightarrow> (nat \<times> string) list \<Rightarrow> string \<Rightarrow> element list \<Rightarrow> nat \<Rightarrow> nat
     \<Rightarrow> place option \<times> cursor list" where
  "scan_comment label_regex created_anchors label pars i k =
     (case scan_current label_regex created_anchors label i (pars ! i) k
             (drop k (children (pars ! i))) of
        (Found found, visited) \<Rightarrow> (Some found, visited)
      | (Stop, visited) \<Rightarrow> (None, visited)
      | (Next_par, visited) \<Rightarrow>
          (case scan_pars label_regex created_anchors label (Suc i) (drop (Suc i) pars) of
             (r, visited') \<Rightarrow> (r, visited @ visited')))"

text \<open>The call of \<open>add_comment\<close> at the place found; it gives the new \<open>pars\<close> and the
  anchor.\<close>

definition splice_comment ::
  "nat \<Rightarrow> string \<Rightarrow> string \<Rightarrow> string \<Rightarrow> string option \<Rightarrow> element list \<Rightarrow> place
     \<Rightarrow> py_error + element list \<times> nat" where
  "splice_comment fresh anchor_id app_from label note pars found =
     (case found of
        In_text i label_match \<Rightarrow>
          add_comment_text fresh Gloss anchor_id app_from pars i label_match label note
      | In_head i k label_match \<Rightarrow>
          (case add_comment_text fresh Gloss anchor_id app_from (children (pars ! i)) k
                  label_match label note of
             Inl e \<Rightarrow> Inl e
           | Inr (siblings, anchor) \<Rightarrow> Inr (pars [i := set_children (pars ! i) siblings], anchor))
      | In_tail i k label_match \<Rightarrow>
          (case add_comment_tail fresh Gloss anchor_id app_from (pars ! i) k label_match label
                  note of
             Inl e \<Rightarrow> Inl e
           | Inr (current_p, anchor) \<Rightarrow> Inr (pars [i := current_p], anchor)))"

text \<open>\<open>create_dud_comment\<close>: the anchor and the \<open>app\<close> of a comment that found no
  place, as elements; the program writes their serialisation.\<close>

definition create_dud_comment :: "nat \<Rightarrow> string \<Rightarrow> string \<Rightarrow> string \<Rightarrow> string option \<Rightarrow> element list" where
  "create_dud_comment fresh anchor_id app_from label_text note_text =
     [anchor_elem fresh anchor_id None,
      Element (fresh + 1) ''app'' [(''from'', app_from)] None
        [Element (fresh + 2) ''note'' [(''place'', ''bottom''), (''type'', ''gloss'')] None
           [Element (fresh + 3) ''label'' [] (Some label_text) [] note_text]
           None]
        None]"

text \<open>
  The state of \<open>add_comments\<close>: the tree, the next free ident, \<open>created_anchors\<close>, the
  count of failures and the lines written to \<open>args.comment_file\<close>, each the number of
  the page and the dud. \<open>use_file\<close> says whether \<open>args.comment_file\<close> is set;
  \<open>anchor_id\<close> and \<open>app_from\<close> are the two templates, as functions of \<open>comment_i\<close>.
\<close>

record comments_state =
  tei_tree :: "element list"
  next_ident :: nat
  created_anchors :: "(nat \<times> string) list"
  comment_failure_count :: nat
  comment_file :: "(string \<times> element list) list"

text \<open>\<open>first_index P xs\<close>: the index of the first element of \<open>xs\<close> with \<open>P\<close>.\<close>

fun first_index :: "('a \<Rightarrow> bool) \<Rightarrow> 'a list \<Rightarrow> nat option" where
  "first_index P [] = None"
| "first_index P (x # xs) = (if P x then Some 0 else map_option Suc (first_index P xs))"

text \<open>The first result of the XPath \<open>div[1]/p/pb[@n="pe_number"]\<close>, as the indexes of
  the paragraph and of the page break in it.\<close>

fun find_pb :: "string \<Rightarrow> nat \<Rightarrow> element list \<Rightarrow> (nat \<times> nat) option" where
  "find_pb pe_number i [] = None"
| "find_pb pe_number i (p # ps) =
     (case (if tag p = ''p''
            then first_index (\<lambda>c. tag c = ''pb'' \<and> map_of (attrib c) ''n'' = Some pe_number)
                   (children p)
            else None) of
        Some k \<Rightarrow> Some (i, k)
      | None \<Rightarrow> find_pb pe_number (Suc i) ps)"

text \<open>
  The body of the loop over the sorted comments of a page. \<open>pagebreaks[0]\<close> is found
  once for the page; the placements add no \<open>pb\<close> and remove no element, so that
  looking it up again for each comment finds the same element.
\<close>

definition add_one_comment ::
  "(string \<Rightarrow> searcher) \<Rightarrow> (int \<Rightarrow> string) \<Rightarrow> (int \<Rightarrow> string) \<Rightarrow> bool \<Rightarrow> string
     \<Rightarrow> comment \<Rightarrow> comments_state \<Rightarrow> py_error + comments_state" where
  "add_one_comment search anchor_id app_from use_file pe_number c st =
     (case c of (number, label, note, comment_i) \<Rightarrow>
      case find_pb pe_number 0 (tei_tree st) of
        None \<Rightarrow> Inl IndexError
      | Some (i, k) \<Rightarrow>
         (case fst (scan_comment (search label) (created_anchors st) label (tei_tree st) i k) of
            None \<Rightarrow>
              Inr (st \<lparr> comment_failure_count := comment_failure_count st + 1,
                        comment_file :=
                          (if use_file
                           then comment_file st @
                                  [(pe_number,
                                    create_dud_comment (next_ident st) (anchor_id comment_i)
                                      (app_from comment_i) label note)]
                           else comment_file st) \<rparr>)
          | Some found \<Rightarrow>
              (case splice_comment (next_ident st) (anchor_id comment_i) (app_from comment_i)
                      label note (tei_tree st) found of
                 Inl e \<Rightarrow> Inl e
               | Inr (pars, new_anchor) \<Rightarrow>
                   Inr (st \<lparr> tei_tree := pars, next_ident := next_ident st + 6,
                             created_anchors := (new_anchor, label) # created_anchors st \<rparr>))))"

text \<open>The loop over the comments, stopping at an exception.\<close>

fun add_comments_loop ::
  "(string \<Rightarrow> searcher) \<Rightarrow> (int \<Rightarrow> string) \<Rightarrow> (int \<Rightarrow> string) \<Rightarrow> bool \<Rightarrow> string
     \<Rightarrow> comment list \<Rightarrow> comments_state \<Rightarrow> py_error + comments_state" where
  "add_comments_loop search anchor_id app_from use_file pe_number [] st = Inr st"
| "add_comments_loop search anchor_id app_from use_file pe_number (c # cs) st =
     (case add_one_comment search anchor_id app_from use_file pe_number c st of
        Inl e \<Rightarrow> Inl e
      | Inr st' \<Rightarrow> add_comments_loop search anchor_id app_from use_file pe_number cs st')"

text \<open>One page of \<open>add_comments\<close>: a page whose page break is not found is left out;
  \<open>created_anchors\<close> starts empty.\<close>

definition add_comments_page ::
  "(string \<Rightarrow> searcher) \<Rightarrow> (int \<Rightarrow> string) \<Rightarrow> (int \<Rightarrow> string) \<Rightarrow> bool \<Rightarrow> string
     \<Rightarrow> comment list \<Rightarrow> comments_state \<Rightarrow> py_error + comments_state" where
  "add_comments_page search anchor_id app_from use_file pe_number page_comments st =
     (case find_pb pe_number 0 (tei_tree st) of
        None \<Rightarrow> Inr st
      | Some _ \<Rightarrow>
          add_comments_loop search anchor_id app_from use_file pe_number
            (sorted_comments page_comments) (st \<lparr> created_anchors := [] \<rparr>))"

section \<open>The placement driver for the critical apparatus: \<open>add_critical_apparatus\<close>\<close>

text \<open>
  An entry of the apparatus is \<open>(number, lem, rdg)\<close>: \<open>number\<close> is an \<open>int\<close>
  (\<open>preformat_critical\<close> makes it with \<open>int\<close> from a string of digits), \<open>lem\<close> is taken
  here as its first triple \<open>lem[0]\<close>, the only part that the driver and \<open>add_critical\<close>
  read, and \<open>rdg\<close> is the list of the readings.
\<close>

type_synonym entry = "int \<times> lem \<times> rdg"

datatype lem_place = Lem_in_tail nat nat match | Lem_in_text nat match

datatype tail_advance = Found_tail nat nat match | Stop_search | Next_parent

text \<open>
  The iterations of the \<open>while\<close> loop with \<open>look_in_tail\<close> set: \<open>current\<close> is the head of
  the list, the child \<open>k\<close> of the paragraph \<open>j\<close>. The loop goes on with a match, with
  \<open>search = False\<close> when the next sibling is a \<open>pb\<close>, or with \<open>current_parent =
  current_parent.getnext()\<close> and \<open>look_in_tail = False\<close> when there is no next sibling.
\<close>

fun scan_tails :: "searcher \<Rightarrow> nat \<Rightarrow> nat \<Rightarrow> element list \<Rightarrow> tail_advance \<times> cursor list" where
  "scan_tails lem_regex j k [] = (Next_parent, [])"
| "scan_tails lem_regex j k (current # siblings) =
     (case lem_regex (safe (tail current)) of
        Some lem_match \<Rightarrow> (Found_tail j k lem_match, [(j, Some k)])
      | None \<Rightarrow>
         (case siblings of
            [] \<Rightarrow> (Next_parent, [(j, Some k)])
          | next_sibling # _ \<Rightarrow>
              if tag next_sibling = ''pb'' then (Stop_search, [(j, Some k)])
              else (case scan_tails lem_regex j (Suc k) siblings of
                      (r, visited) \<Rightarrow> (r, (j, Some k) # visited))))"

text \<open>The iterations with \<open>look_in_tail\<close> not set: \<open>current_parent\<close> is the head of the
  list, the paragraph \<open>i\<close>. The result is the place found, if any, the value of
  \<open>look_in_tail\<close> at the end of the loop, and the cursors of the iterations.\<close>

fun scan_texts :: "searcher \<Rightarrow> nat \<Rightarrow> element list \<Rightarrow> lem_place option \<times> bool \<times> cursor list" where
  "scan_texts lem_regex i [] = (None, False, [])"
| "scan_texts lem_regex i (current_parent # following) =
     (case lem_regex (safe (etext current_parent)) of
        Some lem_match \<Rightarrow> (Some (Lem_in_text i lem_match), False, [(i, None)])
      | None \<Rightarrow>
         (case children current_parent of
            [] \<Rightarrow>
              (case scan_texts lem_regex (Suc i) following of
                 (r, l, visited) \<Rightarrow> (r, l, (i, None) # visited))
          | current # _ \<Rightarrow>
              if tag current = ''pb'' then (None, True, [(i, None)])
              else
                (case scan_tails lem_regex i 0 (children current_parent) of
                   (Found_tail j k lem_match, visited) \<Rightarrow>
                     (Some (Lem_in_tail j k lem_match), True, (i, None) # visited)
                 | (Stop_search, visited) \<Rightarrow> (None, True, (i, None) # visited)
                 | (Next_parent, visited) \<Rightarrow>
                     (case scan_texts lem_regex (Suc i) following of
                        (r, l, visited') \<Rightarrow> (r, l, (i, None) # visited @ visited')))))"

text \<open>The whole \<open>while\<close> loop for one entry: \<open>current_parent\<close> is the paragraph \<open>i\<close>,
  \<open>current\<close> the child \<open>k\<close> of the paragraph \<open>j\<close>.\<close>

definition scan_critical ::
  "searcher \<Rightarrow> element list \<Rightarrow> nat \<Rightarrow> bool \<Rightarrow> nat \<times> nat \<Rightarrow> lem_place option \<times> bool \<times> cursor list" where
  "scan_critical lem_regex pars i look_in_tail current =
     (if look_in_tail then
        (case current of (j, k) \<Rightarrow>
         case scan_tails lem_regex j k (drop k (children (pars ! j))) of
           (Found_tail j' k' lem_match, visited) \<Rightarrow> (Some (Lem_in_tail j' k' lem_match), True, visited)
         | (Stop_search, visited) \<Rightarrow> (None, True, visited)
         | (Next_parent, visited) \<Rightarrow>
             (case scan_texts lem_regex (Suc i) (drop (Suc i) pars) of
                (r, l, visited') \<Rightarrow> (r, l, visited @ visited')))
      else scan_texts lem_regex i (drop i pars))"

text \<open>\<open>create_dud_critical\<close>, as an element.\<close>

definition create_dud_critical :: "nat \<Rightarrow> lem \<Rightarrow> rdg \<Rightarrow> element" where
  "create_dud_critical fresh lem_text rdg_text =
     Element fresh ''app'' [] None
       (Element (fresh + 1) (snd (snd lem_text)) [(''wit'', fst lem_text)] (Some '' '') [] None #
        map (\<lambda>(n, wit, rdg_text). Element (fresh + 2 + n) ''rdg'' [(''wit'', wit)] (Some rdg_text) [] None)
          (zip [0 ..< length rdg_text] rdg_text))
       None"

text \<open>The largest ident in an element; the next free ident after a new \<open>app\<close> is the
  one after it.\<close>

fun max_ident :: "element \<Rightarrow> nat" where
  "max_ident (Element i t a x c l) = fold max (map max_ident c) i"

text \<open>
  The state of the loop over the entries of a page. \<open>current\<close> and \<open>saved_current\<close> are
  positions \<open>(j, k)\<close>, the child \<open>k\<close> of the paragraph \<open>j\<close>; \<open>start_current_parent\<close> is
  the index of a paragraph. \<open>failed\<close> is the list \<open>failed[pe_number]\<close>; the lines of
  \<open>args.apparatus_file\<close> are the number of the page and the dud.
\<close>

record critical_state =
  tree :: "element list"
  fresh_ident :: nat
  current :: "nat \<times> nat"
  saved_current :: "nat \<times> nat"
  start_current_parent :: nat
  look_in_tail :: bool
  prev_number :: "int option"
  failed :: "entry list"
  critical_failure_count :: nat
  apparatus_file :: "(string \<times> element) list"

text \<open>Lines 1565 to 1569: an entry whose number is below the one before it sends the
  scan back to the page break.\<close>

definition restart_on_drop :: "string \<Rightarrow> int \<Rightarrow> critical_state \<Rightarrow> py_error + critical_state" where
  "restart_on_drop pe_number number st =
     (case prev_number st of
        None \<Rightarrow> Inr (st \<lparr> prev_number := Some number \<rparr>)
      | Some prev \<Rightarrow>
          if number < prev then
            (case find_pb pe_number 0 (tree st) of
               None \<Rightarrow> Inl IndexError
             | Some (i, k) \<Rightarrow>
                 Inr (st \<lparr> current := (i, k), saved_current := (i, k),
                           start_current_parent := i, look_in_tail := True,
                           prev_number := Some number \<rparr>))
          else Inr (st \<lparr> prev_number := Some number \<rparr>))"

text \<open>The body of the loop over the entries.\<close>

definition add_one_critical ::
  "(string \<Rightarrow> searcher) \<Rightarrow> apparatus \<Rightarrow> bool \<Rightarrow> string \<Rightarrow> entry \<Rightarrow> critical_state
     \<Rightarrow> py_error + critical_state" where
  "add_one_critical search apparatus use_file pe_number e st0 =
     (case e of (number, lem, rdg) \<Rightarrow>
      case restart_on_drop pe_number number st0 of
        Inl err \<Rightarrow> Inl err
      | Inr st \<Rightarrow>
         (case scan_critical (search (fst (snd lem))) (tree st) (start_current_parent st)
                 (look_in_tail st) (current st) of
            (None, l, visited) \<Rightarrow>
              Inr (st \<lparr> current := saved_current st, look_in_tail := l,
                        failed := failed st @ [(number, lem, rdg)],
                        critical_failure_count := critical_failure_count st + 1,
                        apparatus_file :=
                          (if use_file
                           then apparatus_file st @
                                  [(pe_number, create_dud_critical (fresh_ident st) lem rdg)]
                           else apparatus_file st) \<rparr>)
          | (Some (Lem_in_tail j k lem_match), l, visited) \<Rightarrow>
              (case add_critical_tail apparatus (fresh_ident st) (tree st ! j) k lem_match lem rdg of
                 Inl err \<Rightarrow> Inl err
               | Inr parent \<Rightarrow>
                   Inr (st \<lparr> tree := (tree st) [j := parent],
                             fresh_ident := Suc (max_ident (children parent ! Suc k)),
                             current := (j, Suc k), saved_current := (j, Suc k),
                             look_in_tail := l \<rparr>))
          | (Some (Lem_in_text i lem_match), l, visited) \<Rightarrow>
              (case add_critical_text apparatus (fresh_ident st) (tree st ! i) lem_match lem rdg of
                 Inl err \<Rightarrow> Inl err
               | Inr parent \<Rightarrow>
                   Inr (st \<lparr> tree := (tree st) [i := parent],
                             fresh_ident := Suc (max_ident (children parent ! 0)),
                             current := (i, 0), saved_current := (i, 0),
                             start_current_parent := i, look_in_tail := l \<rparr>))))"

text \<open>The loop over the entries of a page, stopping at an exception.\<close>

fun add_critical_loop ::
  "(string \<Rightarrow> searcher) \<Rightarrow> apparatus \<Rightarrow> bool \<Rightarrow> string \<Rightarrow> entry list \<Rightarrow> critical_state
     \<Rightarrow> py_error + critical_state" where
  "add_critical_loop search apparatus use_file pe_number [] st = Inr st"
| "add_critical_loop search apparatus use_file pe_number (e # es) st =
     (case add_one_critical search apparatus use_file pe_number e st of
        Inl err \<Rightarrow> Inl err
      | Inr st' \<Rightarrow> add_critical_loop search apparatus use_file pe_number es st')"

text \<open>One page of \<open>add_critical_apparatus\<close>, from the tree, the next free ident, the
  failure count and the file as they are before the page: the scan starts at the
  page break, in its tail; a page without page break raises \<open>IndexError\<close>.\<close>

definition add_critical_page ::
  "(string \<Rightarrow> searcher) \<Rightarrow> apparatus \<Rightarrow> bool \<Rightarrow> string \<Rightarrow> entry list
     \<Rightarrow> element list \<Rightarrow> nat \<Rightarrow> nat \<Rightarrow> (string \<times> element) list \<Rightarrow> py_error + critical_state" where
  "add_critical_page search apparatus use_file pe_number entries pars fresh failures written =
     (case find_pb pe_number 0 pars of
        None \<Rightarrow> Inl IndexError
      | Some (i, k) \<Rightarrow>
          add_critical_loop search apparatus use_file pe_number entries
            \<lparr> tree = pars, fresh_ident = fresh, current = (i, k), saved_current = (i, k),
              start_current_parent = i, look_in_tail = True, prev_number = None,
              failed = [], critical_failure_count = failures, apparatus_file = written \<rparr>)"

section \<open>Properties of the witness reconciler\<close>

lemma join_Cons: "join sep (p # ps) = p @ concat (map (\<lambda>q. sep @ q) ps)"
  by (induction ps arbitrary: p) simp_all

text \<open>\<open>strip\<close> removes exactly a run of white space at each end.\<close>

lemma rstrip_by_decomp: "\<exists>r. s = rstrip_by P s @ r \<and> (\<forall>c \<in> set r. P c)"
proof -
  have "rev s = takeWhile P (rev s) @ dropWhile P (rev s)" by simp
  then have "s = rev (dropWhile P (rev s)) @ rev (takeWhile P (rev s))"
    by (metis rev_append rev_rev_ident)
  moreover have "\<forall>c \<in> set (rev (takeWhile P (rev s))). P c"
    by (auto dest: set_takeWhileD)
  ultimately show ?thesis unfolding rstrip_by_def by blast
qed

lemma strip_decomp:
  "\<exists>l r. s = l @ strip s @ r \<and> (\<forall>c \<in> set l. is_space c) \<and> (\<forall>c \<in> set r. is_space c)"
proof -
  obtain r where r: "dropWhile is_space s = rstrip_by is_space (dropWhile is_space s) @ r"
    "\<forall>c \<in> set r. is_space c"
    using rstrip_by_decomp [of "dropWhile is_space s" is_space] by blast
  have "s = takeWhile is_space s @ dropWhile is_space s" by simp
  then have "s = takeWhile is_space s @ strip s @ r"
    using r(1) by (simp add: strip_def strip_by_def lstrip_by_def)
  moreover have "\<forall>c \<in> set (takeWhile is_space s). is_space c"
    by (auto dest: set_takeWhileD)
  ultimately show ?thesis using r(2) by blast
qed

lemma strip_ends:
  assumes "strip s \<noteq> []"
  shows "\<not> is_space (hd (strip s)) \<and> \<not> is_space (last (strip s))"
proof -
  let ?d = "dropWhile is_space s"
  have s: "strip s = rev (dropWhile is_space (rev ?d))"
    by (simp add: strip_def strip_by_def lstrip_by_def rstrip_by_def)
  with assms have ne: "dropWhile is_space (rev ?d) \<noteq> []" by simp
  then have l: "\<not> is_space (last (strip s))"
    unfolding s by (simp add: last_rev hd_dropWhile)
  obtain r where r: "?d = strip s @ r"
    using rstrip_by_decomp [of ?d is_space]
    by (auto simp: strip_def strip_by_def lstrip_by_def)
  with assms have "?d \<noteq> []" by auto
  then have "\<not> is_space (hd ?d)" by (rule hd_dropWhile)
  moreover have "hd ?d = hd (strip s)" using r assms by (metis hd_append2)
  ultimately show ?thesis using l by simp
qed

lemma bump_counts:
  "bump c s = (fst c + (if s = Plain then 1 else 0), snd c + (if s = Italic then 1 else 0))"
  by (cases c; cases s) simp_all

lemma alternation_loop_eq:
  "alternation_loop prev c rest =
     (if alternates_from prev rest
      then Some (fst c + count_style Plain rest, snd c + count_style Italic rest) else None)"
  by (induction rest arbitrary: prev c) (auto simp: Let_def bump_counts count_style_def)

lemma next_style_neq: "(a = next_style b) = (a \<noteq> b)"
  by (cases a; cases b) simp_all

lemma ball_upt_Suc: "(\<forall>i \<in> {0..<Suc n}. P i) = (P 0 \<and> (\<forall>i \<in> {0..<n}. P (Suc i)))"
proof
  assume a: "\<forall>i \<in> {0..<Suc n}. P i"
  show "P 0 \<and> (\<forall>i \<in> {0..<n}. P (Suc i))"
  proof
    show "P 0" using a by simp
    show "\<forall>i \<in> {0..<n}. P (Suc i)" using a by simp
  qed
next
  assume a: "P 0 \<and> (\<forall>i \<in> {0..<n}. P (Suc i))"
  show "\<forall>i \<in> {0..<Suc n}. P i"
  proof
    fix i assume "i \<in> {0..<Suc n}"
    then show "P i" using a by (cases i) simp_all
  qed
qed

lemma strict_alternation_Cons:
  "strict_alternation (a # b # xs) = (fst b \<noteq> fst a \<and> strict_alternation (b # xs))"
proof -
  have "strict_alternation (a # b # xs) =
        (\<forall>i \<in> {0..<Suc (length xs)}. fst ((a # b # xs) ! Suc i) \<noteq> fst ((a # b # xs) ! i))"
    by (simp add: strict_alternation_def)
  also have "\<dots> = (fst b \<noteq> fst a \<and> (\<forall>i \<in> {0..<length xs}. fst ((b # xs) ! Suc i) \<noteq> fst ((b # xs) ! i)))"
    unfolding ball_upt_Suc by simp
  also have "\<dots> = (fst b \<noteq> fst a \<and> strict_alternation (b # xs))"
    by (simp add: strict_alternation_def)
  finally show ?thesis .
qed

lemma alternates_from_strict:
  "alternates_from (fst a) rest = strict_alternation (a # rest)"
proof (induction rest arbitrary: a)
  case Nil
  show ?case by (simp add: strict_alternation_def)
next
  case (Cons b rest)
  show ?case using Cons[of b] by (simp add: strict_alternation_Cons next_style_neq)
qed

lemma every_second_tl: "every_second (b # rest) = b # every_second (tl rest)"
  by (cases rest) simp_all

lemma upt_shift: "map f [0..<Suc n] = f 0 # map (\<lambda>i. f (Suc i)) [0..<n]"
  by (simp add: upt_conv_Cons map_Suc_upt[symmetric] del: upt_Suc)

lemma zip_slices:
  "zip (every_second (butlast xs)) (every_second (tl xs)) =
     map (\<lambda>i. (xs ! (2 * i), xs ! (2 * i + 1))) [0..<length xs div 2]"
proof (induction xs rule: every_second.induct)
  case (3 x y xs)
  have "zip (every_second (butlast (x # y # xs))) (every_second (tl (x # y # xs))) =
        (x, y) # zip (every_second (butlast xs)) (every_second (tl xs))"
    by (cases xs) (simp_all add: every_second_tl)
  then show ?case using 3 by (simp add: upt_shift del: upt_Suc)
qed simp_all

lemma zip_swap: "zip ys xs = map (\<lambda>(a, b). (b, a)) (zip xs ys)"
  by (induction xs ys rule: list_induct2') simp_all


lemma unparsed_marker:
  assumes "after \<noteq> []"
  shows "unparsed after =
     [(''unparsed'', strip (snd (hd after)) @
                     concat (map (\<lambda>piece. '' | '' @ strip (snd piece)) (tl after)))]"
  using assms by (cases after) (simp_all add: unparsed_def join_Cons comp_def)

text \<open>
  Claim C6, as the code has it. On every non-empty segment list
  \<open>extract_witnesses_right\<close> returns a value. A single segment is not sent to the
  grammars: a plain one is attributed to the default witness, an italic one is marked
  \<open>tbd\<close>. A longer list is accepted exactly when it alternates strictly and has as
  many text as sigla segments; then it is read text-then-sigla when it starts with
  text and sigla-then-text otherwise. Every other list gives one pair, the marker
  \<open>unparsed\<close> with the text of the first segment, stripped, followed by \<open>' | '\<close> and
  the stripped text of each further segment.
\<close>

theorem extract_witnesses_right_grammar:
  assumes "after \<noteq> []"
  shows "extract_witnesses_right ids dflt after =
     Inr (if length after = 1 then
            (if fst (hd after) = Plain then [(''#'' @ dflt, snd (hd after))]
             else [(''tbd'', snd (hd after))])
          else if strict_alternation after \<and> count_style Plain after = count_style Italic after then
            (if fst (hd after) = Plain then text_then_sigla ids after
             else sigla_then_text ids after)
          else [(''unparsed'', strip (snd (hd after)) @
                  concat (map (\<lambda>piece. '' | '' @ strip (snd piece)) (tl after)))])"
proof (cases after)
  case Nil
  with assms show ?thesis by simp
next
  case (Cons first rest)
  show ?thesis
  proof (cases rest)
    case Nil
    with Cons show ?thesis
      by (cases "fst first") (simp_all add: extract_witnesses_right_def)
  next
    case (Cons b rest')
    have cnt: "count_style Plain after = (if fst first = Plain then 1 else 0) + count_style Plain rest"
      "count_style Italic after = (if fst first = Italic then 1 else 0) + count_style Italic rest"
      using \<open>after = first # rest\<close> by (simp_all add: count_style_def)
    have tts: "map (\<lambda>(text, wits). (parse_wits ids (snd wits) ''a'' False, snd text))
                 (zip (every_second (butlast after)) (every_second (tl after))) = text_then_sigla ids after"
      by (simp add: zip_slices text_then_sigla_def)
    have stt: "map (\<lambda>(text, wits). (parse_wits ids (snd wits) ''b'' False, snd text))
                 (zip (every_second (tl after)) (every_second (butlast after))) = sigla_then_text ids after"
      by (simp add: zip_swap[of "every_second (tl after)"] zip_slices sigla_then_text_def)
    have len: "length after \<noteq> 1" using Cons \<open>after = first # rest\<close> by simp
    have "extract_witnesses_right ids dflt after =
       (case alternation_loop (fst first) (bump (0, 0) (fst first)) rest of
                  None \<Rightarrow> Inr (unparsed after)
                | Some (n_plain, n_italic) \<Rightarrow>
                    if n_plain \<noteq> n_italic then Inr (unparsed after)
                    else if fst first = Plain then Inr (text_then_sigla ids after)
                    else Inr (sigla_then_text ids after))"
      unfolding extract_witnesses_right_def tts stt using len \<open>after = first # rest\<close>
      by (simp del: alternation_loop.simps)
    also have "\<dots> = Inr (if strict_alternation after \<and> count_style Plain after = count_style Italic after then
            (if fst (hd after) = Plain then text_then_sigla ids after
             else sigla_then_text ids after)
          else unparsed after)"
      unfolding alternation_loop_eq alternates_from_strict cnt
      using \<open>after = first # rest\<close> by (cases "fst first") (auto simp: bump_counts)
    finally show ?thesis using len unfolding unparsed_marker [OF assms] by simp
  qed
qed

text \<open>The theorem at an accepted list of four segments, at a list that alternates
  but has one more text than sigla segments, and at a list that does not alternate.\<close>

theorem extract_witnesses_right_grammar_witness:
  "[(Plain, ''fide ''), (Italic, ''W, Sr''), (Plain, ''fidei''), (Italic, ''M'')] \<noteq> [] \<and>
   strict_alternation [(Plain, ''fide ''), (Italic, ''W, Sr''), (Plain, ''fidei''), (Italic, ''M'')] \<and>
   extract_witnesses_right edition_ids_01 default_edition_id_01
     [(Plain, ''fide ''), (Italic, ''W, Sr''), (Plain, ''fidei''), (Italic, ''M'')] =
     Inr [(''#W #Sr'', ''fide ''), (''#M'', ''fidei'')] \<and>
   strict_alternation [(Plain, ''fide ''), (Italic, ''W ''), (Plain, ''x'')] \<and>
   extract_witnesses_right edition_ids_01 default_edition_id_01
     [(Plain, ''fide ''), (Italic, ''W ''), (Plain, ''x'')] =
     Inr [(''unparsed'', ''fide | W | x'')] \<and>
   \<not> strict_alternation [(Italic, ''W''), (Italic, '' Sr''), (Plain, ''fide'')] \<and>
   extract_witnesses_right edition_ids_01 default_edition_id_01
     [(Italic, ''W''), (Italic, '' Sr''), (Plain, ''fide'')] =
     Inr [(''unparsed'', ''W | Sr | fide'')]"
proof -
  let ?after = "[(Plain, ''fide ''), (Italic, ''W, Sr''), (Plain, ''fidei''), (Italic, ''M'')]"
  have ne: "?after \<noteq> []" by simp
  have alt: "strict_alternation ?after" by code_simp
  have cnt: "count_style Plain ?after = count_style Italic ?after" by code_simp
  have len: "length ?after \<noteq> 1" by simp
  have pairs: "text_then_sigla edition_ids_01 ?after =
      [(''#W #Sr'', ''fide ''), (''#M'', ''fidei'')]" by code_simp
  have first: "extract_witnesses_right edition_ids_01 default_edition_id_01 ?after =
      Inr [(''#W #Sr'', ''fide ''), (''#M'', ''fidei'')]"
    using extract_witnesses_right_grammar [OF ne, of edition_ids_01 default_edition_id_01]
    unfolding if_not_P [OF len] using ne alt cnt pairs by simp
  let ?odd = "[(Plain, ''fide ''), (Italic, ''W ''), (Plain, ''x'')]"
  have ne2: "?odd \<noteq> []" by simp
  have alt2: "strict_alternation ?odd" by code_simp
  have cnt2: "count_style Plain ?odd \<noteq> count_style Italic ?odd" by code_simp
  have len2: "length ?odd \<noteq> 1" by simp
  have text2: "strip (snd (hd ?odd)) @ concat (map (\<lambda>piece. '' | '' @ strip (snd piece)) (tl ?odd)) =
      ''fide | W | x''" by code_simp
  have second: "extract_witnesses_right edition_ids_01 default_edition_id_01 ?odd =
      Inr [(''unparsed'', ''fide | W | x'')]"
    using extract_witnesses_right_grammar [OF ne2, of edition_ids_01 default_edition_id_01]
    unfolding if_not_P [OF len2] text2 using cnt2 by simp
  let ?irr = "[(Italic, ''W''), (Italic, '' Sr''), (Plain, ''fide'')]"
  have ne3: "?irr \<noteq> []" by simp
  have alt3: "\<not> strict_alternation ?irr" by code_simp
  have len3: "length ?irr \<noteq> 1" by simp
  have text3: "strip (snd (hd ?irr)) @ concat (map (\<lambda>piece. '' | '' @ strip (snd piece)) (tl ?irr)) =
      ''W | Sr | fide''" by code_simp
  have third: "extract_witnesses_right edition_ids_01 default_edition_id_01 ?irr =
      Inr [(''unparsed'', ''W | Sr | fide'')]"
    using extract_witnesses_right_grammar [OF ne3, of edition_ids_01 default_edition_id_01]
    unfolding if_not_P [OF len3] text3 using alt3 by simp
  show ?thesis using ne alt first alt2 second alt3 third by simp
qed

text \<open>
  The claim as the specification words it fails in two places. On a single text
  segment the counts of text and sigla segments differ (one and none), and the result
  is the default witness, not the \<open>unparsed\<close> marker. And where the marker is
  returned, its text is not the text of the segments as they are: each segment is
  stripped and \<open>' | '\<close> is put between them.
\<close>

theorem extract_witnesses_right_single_counterexample:
  "count_style Plain [(Plain, ''fide'')] \<noteq> count_style Italic [(Plain, ''fide'')] \<and>
   extract_witnesses_right edition_ids_01 default_edition_id_01 [(Plain, ''fide'')] =
     Inr [(''#St'', ''fide'')] \<and>
   count_style Plain [(Plain, ''fide ''), (Italic, ''W ''), (Plain, ''x'')] \<noteq>
     count_style Italic [(Plain, ''fide ''), (Italic, ''W ''), (Plain, ''x'')] \<and>
   extract_witnesses_right edition_ids_01 default_edition_id_01
     [(Plain, ''fide ''), (Italic, ''W ''), (Plain, ''x'')] = Inr [(''unparsed'', ''fide | W | x'')] \<and>
   concat (map snd [(Plain, ''fide ''), (Italic, ''W ''), (Plain, ''x'')]) = ''fide W x''"
  by code_simp

text \<open>On the empty list the function reads \<open>after[0]\<close> and raises.\<close>

lemma extract_witnesses_right_empty:
  "extract_witnesses_right ids dflt [] = Inl IndexError"
  by (simp add: extract_witnesses_right_def)

section \<open>Properties of the comment ordering\<close>

lemma sorted_comments_keys: "sorted (map get_sort_key (sorted_comments cs))"
  by (simp add: sorted_comments_def)

lemma sorted_comments_mset: "mset (sorted_comments cs) = mset cs"
  by (simp add: sorted_comments_def)

lemma sorted_comments_stable:
  "filter (\<lambda>c. get_sort_key c = k) (sorted_comments cs) = filter (\<lambda>c. get_sort_key c = k) cs"
  by (simp add: sorted_comments_def sort_key_stable)

lemma key_le_same_line:
  assumes "get_sort_key a \<le> get_sort_key b" and "line_num a = line_num b"
  shows "length (label_of b) \<le> length (label_of a)"
  using assms by (auto simp: get_sort_key_def Let_def less_eq_prod_def)

lemma key_le_lex:
  "(get_sort_key a \<le> get_sort_key b) =
     (line_num a < line_num b \<or>
      line_num a = line_num b \<and>
        (length (label_of b) < length (label_of a) \<or>
         length (label_of b) = length (label_of a) \<and>
           snd (snd (snd a)) \<le> snd (snd (snd b))))"
  by (auto simp: get_sort_key_def Let_def less_eq_prod_def)

text \<open>The value of a digit string is its positional value in base ten.\<close>

lemma foldl_digits:
  "foldl (\<lambda>a c. 10 * a + (int (of_char c) - 48)) a ds =
     a * 10 ^ length ds + (\<Sum>k<length ds. (int (of_char (ds ! k)) - 48) * 10 ^ (length ds - Suc k))"
proof (induction ds arbitrary: a)
  case Nil
  show ?case by simp
next
  case (Cons c cs)
  show ?case
    unfolding foldl_Cons Cons.IH
    by (simp add: sum.lessThan_Suc_shift algebra_simps del: sum.lessThan_Suc)
qed

lemma int_of_digits_value:
  "int_of_digits ds = (\<Sum>k<length ds. (int (of_char (ds ! k)) - 48) * 10 ^ (length ds - Suc k))"
  by (simp add: int_of_digits_def foldl_digits)

lemma search_digits_none:
  assumes "\<forall>c \<in> set s. c \<notin> set ''0123456789''"
  shows "search_digits s = None"
proof -
  have "\<forall>c \<in> set s. \<not> is_digit c"
    using assms by (simp add: is_digit_def)
  then have d: "dropWhile (\<lambda>c. \<not> is_digit c) s = []" by simp
  show ?thesis unfolding search_digits_def Let_def d by simp
qed

lemma search_digits_first_run:
  assumes pre: "\<forall>c \<in> set pre. c \<notin> set ''0123456789''"
    and ds: "ds \<noteq> []" "\<forall>c \<in> set ds. c \<in> set ''0123456789''"
    and post: "post = [] \<or> hd post \<notin> set ''0123456789''"
  shows "search_digits (pre @ ds @ post) = Some ds"
proof -
  have pre': "\<forall>c \<in> set pre. \<not> is_digit c"
    using pre by (simp add: is_digit_def)
  have ds': "\<forall>c \<in> set ds. is_digit c"
    using ds(2) by (simp add: is_digit_def)
  have post': "post = [] \<or> \<not> is_digit (hd post)"
    using post by (simp add: is_digit_def)
  have "dropWhile (\<lambda>c. \<not> is_digit c) (pre @ ds @ post) = dropWhile (\<lambda>c. \<not> is_digit c) (ds @ post)"
    using pre' by simp
  also have "\<dots> = ds @ post"
    using ds(1) ds' by (cases ds) simp_all
  finally have d: "dropWhile (\<lambda>c. \<not> is_digit c) (pre @ ds @ post) = ds @ post" .
  have "takeWhile is_digit post = []"
    using post' by (cases post) simp_all
  then have "takeWhile is_digit (ds @ post) = ds"
    using ds' by simp
  then show ?thesis using ds(1) unfolding search_digits_def Let_def d by simp
qed

text \<open>
  Claim C5, as the code has it. The comments of a page are placed in the order of a
  stable sort by the key \<open>(line_num, - len(label), comment_i)\<close>, compared
  lexicographically. The result is a permutation of the input; of two comments the
  one placed first has the smaller \<open>line_num\<close>, or the same \<open>line_num\<close> and the
  longer label, or the same \<open>line_num\<close> and label length and an input index that is
  not larger; comments with the same key keep their input order. The key itself:
  \<open>line_num\<close> is 99999 when the number field is missing or has no digit, and
  otherwise the base-ten value of the first run of digits in the number field; the
  second component is the negated length of the label; the third is the input index.
\<close>

theorem sorted_comments_order:
  "mset (sorted_comments cs) = mset cs \<and>
   (\<forall>i j. i < j \<and> j < length (sorted_comments cs) \<longrightarrow>
      (let a = get_sort_key (sorted_comments cs ! i); b = get_sort_key (sorted_comments cs ! j)
       in fst a < fst b \<or>
          fst a = fst b \<and> (fst (snd a) < fst (snd b) \<or>
                           fst (snd a) = fst (snd b) \<and> snd (snd a) \<le> snd (snd b)))) \<and>
   (\<forall>k. filter (\<lambda>c. get_sort_key c = k) (sorted_comments cs) =
        filter (\<lambda>c. get_sort_key c = k) cs) \<and>
   (\<forall>i j. i < j \<and> j < length (sorted_comments cs) \<and>
          fst (get_sort_key (sorted_comments cs ! i)) = fst (get_sort_key (sorted_comments cs ! j)) \<longrightarrow>
          length (fst (snd (sorted_comments cs ! j))) \<le> length (fst (snd (sorted_comments cs ! i)))) \<and>
   (\<forall>label note i. get_sort_key (None, label, note, i) = (99999, - int (length label), i)) \<and>
   (\<forall>s label note i. (\<forall>c \<in> set s. c \<notin> set ''0123456789'') \<longrightarrow>
      get_sort_key (Some s, label, note, i) = (99999, - int (length label), i)) \<and>
   (\<forall>pre ds post label note i.
      (\<forall>c \<in> set pre. c \<notin> set ''0123456789'') \<and>
      ds \<noteq> [] \<and> (\<forall>c \<in> set ds. c \<in> set ''0123456789'') \<and>
      (post = [] \<or> hd post \<notin> set ''0123456789'') \<longrightarrow>
      get_sort_key (Some (pre @ ds @ post), label, note, i) =
        ((\<Sum>k<length ds. (int (of_char (ds ! k)) - 48) * 10 ^ (length ds - Suc k)),
         - int (length label), i))"
proof -
  let ?res = "sorted_comments cs"
  have le: "get_sort_key (?res ! i) \<le> get_sort_key (?res ! j)"
    if ij: "i < j" "j < length ?res" for i j
  proof -
    have "map get_sort_key ?res ! i \<le> map get_sort_key ?res ! j"
      using sorted_comments_keys [of cs] ij by (simp add: sorted_iff_nth_mono del: nth_map)
    then show ?thesis using ij by simp
  qed
  have lex: "\<forall>i j. i < j \<and> j < length ?res \<longrightarrow>
      (let a = get_sort_key (?res ! i); b = get_sort_key (?res ! j)
       in fst a < fst b \<or>
          fst a = fst b \<and> (fst (snd a) < fst (snd b) \<or>
                           fst (snd a) = fst (snd b) \<and> snd (snd a) \<le> snd (snd b)))"
  proof (intro allI impI)
    fix i j assume "i < j \<and> j < length ?res"
    then have "get_sort_key (?res ! i) \<le> get_sort_key (?res ! j)" using le by blast
    then show "let a = get_sort_key (?res ! i); b = get_sort_key (?res ! j)
       in fst a < fst b \<or>
          fst a = fst b \<and> (fst (snd a) < fst (snd b) \<or>
                           fst (snd a) = fst (snd b) \<and> snd (snd a) \<le> snd (snd b))"
      by (auto simp: Let_def less_eq_prod_def)
  qed
  have longer: "\<forall>i j. i < j \<and> j < length ?res \<and>
          fst (get_sort_key (?res ! i)) = fst (get_sort_key (?res ! j)) \<longrightarrow>
          length (fst (snd (?res ! j))) \<le> length (fst (snd (?res ! i)))"
  proof (intro allI impI)
    fix i j assume a: "i < j \<and> j < length ?res \<and>
          fst (get_sort_key (?res ! i)) = fst (get_sort_key (?res ! j))"
    then have "get_sort_key (?res ! i) \<le> get_sort_key (?res ! j)" using le by blast
    moreover have "line_num (?res ! i) = line_num (?res ! j)"
      using a by (simp add: get_sort_key_def Let_def)
    ultimately have "length (label_of (?res ! j)) \<le> length (label_of (?res ! i))"
      by (rule key_le_same_line)
    then show "length (fst (snd (?res ! j))) \<le> length (fst (snd (?res ! i)))"
      by (simp add: label_of_def)
  qed
  have k1: "\<forall>label note i. get_sort_key (None, label, note, i) = (99999, - int (length label), i)"
    by (simp add: get_sort_key_def line_num_def label_of_def)
  have k2: "\<forall>s label note i. (\<forall>c \<in> set s. c \<notin> set ''0123456789'') \<longrightarrow>
      get_sort_key (Some s, label, note, i) = (99999, - int (length label), i)"
    using search_digits_none by (simp add: get_sort_key_def line_num_def label_of_def)
  have k3: "\<forall>pre ds post label note i.
      (\<forall>c \<in> set pre. c \<notin> set ''0123456789'') \<and>
      ds \<noteq> [] \<and> (\<forall>c \<in> set ds. c \<in> set ''0123456789'') \<and>
      (post = [] \<or> hd post \<notin> set ''0123456789'') \<longrightarrow>
      get_sort_key (Some (pre @ ds @ post), label, note, i) =
        ((\<Sum>k<length ds. (int (of_char (ds ! k)) - 48) * 10 ^ (length ds - Suc k)),
         - int (length label), i)"
  proof (intro allI impI)
    fix pre ds post lbl :: string and nt :: "string option" and i :: int
    assume a: "(\<forall>c \<in> set pre. c \<notin> set ''0123456789'') \<and>
      ds \<noteq> [] \<and> (\<forall>c \<in> set ds. c \<in> set ''0123456789'') \<and>
      (post = [] \<or> hd post \<notin> set ''0123456789'')"
    then have "search_digits (pre @ ds @ post) = Some ds"
      by (intro search_digits_first_run) blast+
    then show "get_sort_key (Some (pre @ ds @ post), lbl, nt, i) =
        ((\<Sum>k<length ds. (int (of_char (ds ! k)) - 48) * 10 ^ (length ds - Suc k)),
         - int (length lbl), i)"
      by (simp add: get_sort_key_def line_num_def label_of_def int_of_digits_value)
  qed
  show ?thesis
    using sorted_comments_mset [of cs] lex sorted_comments_stable [of _ cs] longer k1 k2 k3
    by blast
qed

text \<open>The theorem at three comments, two of them with the ordinal 12, and the key at
  a number field without a digit and at one with two runs of digits.\<close>

theorem sorted_comments_order_witness:
  "sorted_comments [(Some ''12'', ''fidem'', Some ''n1'', 1), (Some ''12'', ''fidem catholicam'', Some ''n2'', 2),
       (Some ''3'', ''lumen'', Some ''n3'', 3)] =
     [(Some ''3'', ''lumen'', Some ''n3'', 3), (Some ''12'', ''fidem catholicam'', Some ''n2'', 2),
      (Some ''12'', ''fidem'', Some ''n1'', 1)] \<and>
   (1::nat) < 2 \<and>
   2 < length (sorted_comments [(Some ''12'', ''fidem'', Some ''n1'', 1),
       (Some ''12'', ''fidem catholicam'', Some ''n2'', 2), (Some ''3'', ''lumen'', Some ''n3'', 3)]) \<and>
   fst (get_sort_key (Some ''12'', ''fidem catholicam'', Some ''n2'', 2)) =
     fst (get_sort_key (Some ''12'', ''fidem'', Some ''n1'', 1)) \<and>
   length ''fidem'' \<le> length ''fidem catholicam'' \<and>
   list_all (\<lambda>c. c \<notin> set ''0123456789'') ''???'' \<and>
   get_sort_key (Some ''???'', ''lumen'', Some ''n4'', 4) = (99999, - 5, 4) \<and>
   list_all (\<lambda>c. c \<notin> set ''0123456789'') ''v. '' \<and>
   ''12'' \<noteq> [] \<and> list_all (\<lambda>c. c \<in> set ''0123456789'') ''12'' \<and>
   hd ''a3'' \<notin> set ''0123456789'' \<and>
   get_sort_key (Some ''v. 12a3'', ''lumen'', Some ''n5'', 7) = (12, - 5, 7)"
proof -
  let ?cs = "[(Some ''12'', ''fidem'', Some ''n1'', 1), (Some ''12'', ''fidem catholicam'', Some ''n2'', 2),
       (Some ''3'', ''lumen'', Some ''n3'', 3)] :: comment list"
  note t = sorted_comments_order [of ?cs]
  have res: "sorted_comments ?cs =
     [(Some ''3'', ''lumen'', Some ''n3'', 3), (Some ''12'', ''fidem catholicam'', Some ''n2'', 2),
      (Some ''12'', ''fidem'', Some ''n1'', 1)]"
    by code_simp
  have same: "fst (get_sort_key (Some ''12'', ''fidem catholicam'', Some ''n2'', 2)) =
     fst (get_sort_key (Some ''12'', ''fidem'', Some ''n1'', 1))"
    by (simp add: get_sort_key_def line_num_def)
  have "(1::nat) < 2 \<and> 2 < length (sorted_comments ?cs) \<and>
      fst (get_sort_key (sorted_comments ?cs ! 1)) = fst (get_sort_key (sorted_comments ?cs ! 2)) \<longrightarrow>
      length (fst (snd (sorted_comments ?cs ! 2))) \<le> length (fst (snd (sorted_comments ?cs ! 1)))"
    using t [THEN conjunct2, THEN conjunct2, THEN conjunct2, THEN conjunct1] by blast
  then have longer: "length ''fidem'' \<le> length ''fidem catholicam''"
    unfolding res using same by simp
  have nodigit: "\<forall>c \<in> set ''???''. c \<notin> set ''0123456789''" by simp
  have k2: "get_sort_key (Some ''???'', ''lumen'', Some ''n4'', 4) = (99999, - 5, 4)"
    using t [THEN conjunct2, THEN conjunct2, THEN conjunct2, THEN conjunct2, THEN conjunct2,
        THEN conjunct1, rule_format, of "''???''" "''lumen''" "Some ''n4''" 4] nodigit
    by simp
  have hyp: "(\<forall>c \<in> set ''v. ''. c \<notin> set ''0123456789'') \<and>
      ''12'' \<noteq> [] \<and> (\<forall>c \<in> set ''12''. c \<in> set ''0123456789'') \<and>
      (''a3'' = [] \<or> hd ''a3'' \<notin> set ''0123456789'')" by simp
  have "get_sort_key (Some (''v. '' @ ''12'' @ ''a3''), ''lumen'', Some ''n5'', 7) =
      ((\<Sum>k<length ''12''. (int (of_char (''12'' ! k)) - 48) * 10 ^ (length ''12'' - Suc k)),
       - int (length ''lumen''), 7)"
    using t [THEN conjunct2, THEN conjunct2, THEN conjunct2, THEN conjunct2, THEN conjunct2,
        THEN conjunct2, rule_format, of "''v. ''" "''12''" "''a3''" "''lumen''" "Some ''n5''" 7, OF hyp] .
  then have k3: "get_sort_key (Some ''v. 12a3'', ''lumen'', Some ''n5'', 7) = (12, - 5, 7)"
    by (simp add: numeral_2_eq_2)
  show ?thesis using res same longer k2 k3 by simp
qed

text \<open>
  The claim as the specification words it fails in three places. The ordinal is not
  read from the label: a comment whose label starts with a number but whose number
  field is \<open>'???'\<close> gets 99999. A comment with no ordinal does not sort last when
  another ordinal is above 99999. And the longer of two overlapping labels is not
  placed first when the shorter one has the smaller ordinal.
\<close>

theorem sorted_comments_counterexample:
  "sorted_comments [(Some ''???'', ''3 lumen'', Some ''n1'', 1), (Some ''5'', ''fidem'', Some ''n2'', 2)] =
     [(Some ''5'', ''fidem'', Some ''n2'', 2), (Some ''???'', ''3 lumen'', Some ''n1'', 1)] \<and>
   sorted_comments [(None, ''lumen'', Some ''n1'', 1), (Some ''100000'', ''fidem'', Some ''n2'', 2)] =
     [(None, ''lumen'', Some ''n1'', 1), (Some ''100000'', ''fidem'', Some ''n2'', 2)] \<and>
   sorted_comments [(Some ''2'', ''fidem catholicam'', Some ''n1'', 1), (Some ''1'', ''fidem'', Some ''n2'', 2)] =
     [(Some ''1'', ''fidem'', Some ''n2'', 2), (Some ''2'', ''fidem catholicam'', Some ''n1'', 1)]"
  by code_simp

section \<open>Properties of the splicer\<close>


lemma children_set_children [simp]: "children (set_children e c) = c"
  by (cases e) simp
lemma etext_set_children [simp]: "etext (set_children e c) = etext e"
  by (cases e) simp
lemma tail_set_children [simp]: "tail (set_children e c) = tail e"
  by (cases e) simp
lemma tail_set_tail [simp]: "tail (set_tail e l) = l"
  by (cases e) simp
lemma tail_set_text [simp]: "tail (set_text e x) = tail e"
  by (cases e) simp
lemma etext_set_text [simp]: "etext (set_text e x) = x"
  by (cases e) simp
lemma etext_set_tail [simp]: "etext (set_tail e x) = etext e"
  by (cases e) simp
lemma children_set_text [simp]: "children (set_text e x) = children e"
  by (cases e) simp
lemma children_set_tail [simp]: "children (set_tail e x) = children e"
  by (cases e) simp
lemma set_text_twice [simp]: "set_text (set_text e l) l' = set_text e l'"
  by (cases e) simp
lemma set_children_twice [simp]: "set_children (set_children e l) l' = set_children e l'"
  by (cases e) simp
lemma set_text_id [simp]: "set_text e (etext e) = e"
  by (cases e) simp
lemma set_children_id [simp]: "set_children e (children e) = e"
  by (cases e) simp
lemma set_text_children_commute: "set_text (set_children e c) x = set_children (set_text e x) c"
  by (cases e) simp
lemma tag_set [simp]: "tag (set_text e x) = tag e" "tag (set_tail e x) = tag e"
  "tag (set_children e c) = tag e"
  by (cases e; simp)+
lemma ident_set [simp]: "ident (set_text e x) = ident e" "ident (set_tail e x) = ident e"
  "ident (set_children e c) = ident e"
  by (cases e; simp)+














end
